theory Spec2Isabelle
  imports Main "HOL-Library.Char_ord" "HOL-Library.List_Lexorder" "HOL-Library.Product_Lexorder"
begin

section \<open>The upload handler of app.py and its cleaning pipeline\<close>

text \<open>
  The program is one Flask view, \<^verbatim>\<open>upload_file\<close> (app.py, lines 27-91). It checks the
  request, stores the uploaded file, parses it with pandas and then runs four cleaning
  steps on the resulting DataFrame (lines 61-80). The pandas and Python string operations
  the view calls are library code; each is modelled here by a function that computes what
  the library documents, and each raise of the library is a branch of the model.
\<close>

subsection \<open>Data model\<close>

text \<open>
  A cell holds a string, a number or a missing value (pandas: NaN / None). A number cell
  holds an integer; cells with a fractional part are not represented. Strings are lists
  of characters, and the case and whitespace functions below are those of Python's
  \<^verbatim>\<open>str\<close> on ASCII strings. What a property says about the result of such a function
  is said for ASCII strings only (\<open>is_ascii\<close>), and what it says about a total of
  numbers is said within the bound \<open>exact_sum\<close>, inside which the additions of pandas
  are exact.
\<close>

datatype scalar = Str string | Num int | Null

datatype error = AttributeError | TypeError | ValueError | ParseError | OSError

text \<open>
  A DataFrame is kept row-wise: the column labels in order, and the rows in order, each
  row a list of cells in column order.
\<close>

record dataframe =
  columns :: "string list"
  rows :: "scalar list list"

text \<open>
  The invariant of the spec's Tabular Dataset: column names are unique and every row has
  one cell per column.
\<close>

definition well_formed :: "dataframe \<Rightarrow> bool" where
  "well_formed df =
     (distinct (columns df) \<and> (\<forall>r \<in> set (rows df). length r = length (columns df)))"

text \<open>Reading a cell; a row too short for the column reads as missing.\<close>

definition cell :: "scalar list \<Rightarrow> nat \<Rightarrow> scalar" where
  "cell r i = (if i < length r then r ! i else Null)"

text \<open>Position of the first column carrying a label (the number of columns if none does).\<close>

fun col_index :: "string \<Rightarrow> string list \<Rightarrow> nat" where
  "col_index n [] = 0"
| "col_index n (c # cs) = (if c = n then 0 else Suc (col_index n cs))"

definition column_values :: "dataframe \<Rightarrow> string \<Rightarrow> scalar list" where
  "column_values df n = map (\<lambda>r. cell r (col_index n (columns df))) (rows df)"

subsection \<open>Python string operations\<close>

definition is_upper :: "char \<Rightarrow> bool" where
  "is_upper c = (65 \<le> (of_char c :: nat) \<and> (of_char c :: nat) \<le> 90)"

definition is_lower :: "char \<Rightarrow> bool" where
  "is_lower c = (97 \<le> (of_char c :: nat) \<and> (of_char c :: nat) \<le> 122)"

definition is_cased :: "char \<Rightarrow> bool" where
  "is_cased c = (is_upper c \<or> is_lower c)"

definition to_lower :: "char \<Rightarrow> char" where
  "to_lower c = (if is_upper c then char_of ((of_char c :: nat) + 32) else c)"

definition to_upper :: "char \<Rightarrow> char" where
  "to_upper c = (if is_lower c then char_of ((of_char c :: nat) - 32) else c)"

text \<open>
  \<^verbatim>\<open>str.isspace\<close> on ASCII: tab, line feed, vertical tab, form feed, carriage return,
  the four separators 0x1c-0x1f and the space.
\<close>

definition is_space :: "char \<Rightarrow> bool" where
  "is_space c = ((9 \<le> (of_char c :: nat) \<and> (of_char c :: nat) \<le> 13)
                 \<or> (28 \<le> (of_char c :: nat) \<and> (of_char c :: nat) \<le> 32))"


text \<open>\<^verbatim>\<open>str.lower()\<close>.\<close>

definition lower :: "string \<Rightarrow> string" where
  "lower s = map to_lower s"

text \<open>\<^verbatim>\<open>str.replace(' ', '_')\<close>: every space character becomes an underscore.\<close>

definition replace_space :: "string \<Rightarrow> string" where
  "replace_space s = map (\<lambda>c. if c = CHR '' '' then CHR ''_'' else c) s"

text \<open>\<^verbatim>\<open>str.strip()\<close>: whitespace is removed from both ends.\<close>

definition strip :: "string \<Rightarrow> string" where
  "strip s = rev (dropWhile is_space (rev (dropWhile is_space s)))"

text \<open>
  \<^verbatim>\<open>str.title()\<close>: a character that follows a cased character is lowercased, any other
  character is uppercased; so a letter starts a word whenever the character before it is
  not a letter (a space, but also a digit, a hyphen or an apostrophe).
\<close>

fun title_from :: "bool \<Rightarrow> string \<Rightarrow> string" where
  "title_from prev [] = []"
| "title_from prev (c # cs) =
     (if prev then to_lower c else to_upper c) # title_from (is_cased c) cs"

definition title :: "string \<Rightarrow> string" where
  "title s = title_from False s"

text \<open>\<^verbatim>\<open>str.endswith\<close>.\<close>

definition endswith :: "string \<Rightarrow> string \<Rightarrow> bool" where
  "endswith s suffix =
     (length suffix \<le> length s \<and> drop (length s - length suffix) s = suffix)"

subsection \<open>Stage 1: column names (line 61)\<close>

text \<open>
  \<^verbatim>\<open>df.columns = df.columns.str.lower().str.replace(' ', '_')\<close>: every label is
  lowercased, then its spaces are replaced; the cells are untouched.
\<close>

definition normalize_column :: "string \<Rightarrow> string" where
  "normalize_column n = replace_space (lower n)"

definition normalize_columns :: "dataframe \<Rightarrow> dataframe" where
  "normalize_columns df = df\<lparr>columns := map normalize_column (columns df)\<rparr>"

text \<open>
  The \<^verbatim>\<open>.str\<close> accessor of the labels validates them first. A frame without columns
  (what \<^verbatim>\<open>read_json\<close> gives for \<^verbatim>\<open>[]\<close>) has a range index as its labels, which
  the accessor refuses with AttributeError; otherwise the labels are renamed.
\<close>

definition stage1 :: "dataframe \<Rightarrow> error + dataframe" where
  "stage1 df = (if columns df = [] then Inl AttributeError else Inr (normalize_columns df))"

subsection \<open>Stage 2: the country column (lines 64-65)\<close>

text \<open>
  \<^verbatim>\<open>df['country'].str.strip().str.title()\<close>. The \<^verbatim>\<open>.str\<close> accessor of a Series
  first validates the Series and raises AttributeError ("Can only use .str accessor with
  string values") unless its values are inferred as strings. A column that the parser
  read as numbers, and a column with rows that are all missing (read as float64), are
  refused; a column without rows and a column with at least one string are accepted.
\<close>

fun is_str :: "scalar \<Rightarrow> bool" where
  "is_str (Str s) = True"
| "is_str v = False"

definition str_accessor_ok :: "scalar list \<Rightarrow> bool" where
  "str_accessor_ok vs = (vs = [] \<or> (\<exists>v \<in> set vs. is_str v))"

text \<open>
  A string method of the accessor is applied element by element: to a string it applies
  the Python method, every other element (a missing value, a number in a mixed column)
  becomes the missing value.
\<close>

fun str_map :: "(string \<Rightarrow> string) \<Rightarrow> scalar \<Rightarrow> scalar" where
  "str_map f (Str s) = Str (f s)"
| "str_map f v = Null"

definition str_method :: "(string \<Rightarrow> string) \<Rightarrow> scalar list \<Rightarrow> error + scalar list" where
  "str_method f vs = (if str_accessor_ok vs then Inr (map (str_map f) vs) else Inl AttributeError)"

definition strip_title :: "scalar list \<Rightarrow> error + scalar list" where
  "strip_title vs =
     (case str_method strip vs of Inl e \<Rightarrow> Inl e | Inr ws \<Rightarrow> str_method title ws)"

text \<open>\<^verbatim>\<open>df[n] = values\<close>: the cells of column \<open>n\<close> are replaced row by row.\<close>

definition set_column :: "dataframe \<Rightarrow> string \<Rightarrow> scalar list \<Rightarrow> dataframe" where
  "set_column df n vs =
     df\<lparr>rows := map (\<lambda>(r, v). r[col_index n (columns df) := v]) (zip (rows df) vs)\<rparr>"

text \<open>
  The step runs only when a column is labelled \<^verbatim>\<open>country\<close>. When two columns carry that
  label, \<^verbatim>\<open>df['country']\<close> is a DataFrame, which has no \<^verbatim>\<open>.str\<close>: AttributeError.
\<close>

definition clean_country :: "dataframe \<Rightarrow> error + dataframe" where
  "clean_country df =
     (if ''country'' \<in> set (columns df) then
        (if count_list (columns df) ''country'' > 1 then Inl AttributeError
         else (case strip_title (column_values df ''country'') of
                 Inl e \<Rightarrow> Inl e
               | Inr vs \<Rightarrow> Inr (set_column df ''country'' vs)))
      else Inr df)"

subsection \<open>Stage 3: missing values and duplicates (lines 68-71)\<close>

text \<open>\<^verbatim>\<open>df.dropna()\<close>: a row with a missing value in any column is dropped.\<close>

definition dropna :: "dataframe \<Rightarrow> dataframe" where
  "dropna df = df\<lparr>rows := filter (\<lambda>r. Null \<notin> set r) (rows df)\<rparr>"

text \<open>
  \<^verbatim>\<open>df.drop_duplicates()\<close> (keep='first'): a row equal in every column to a row already
  seen is dropped.
\<close>

fun keep_first :: "'a list \<Rightarrow> 'a list \<Rightarrow> 'a list" where
  "keep_first seen [] = []"
| "keep_first seen (r # rs) =
     (if r \<in> set seen then keep_first seen rs else r # keep_first (r # seen) rs)"

definition drop_duplicates :: "dataframe \<Rightarrow> dataframe" where
  "drop_duplicates df = df\<lparr>rows := keep_first [] (rows df)\<rparr>"

definition filter_rows :: "dataframe \<Rightarrow> dataframe" where
  "filter_rows df = drop_duplicates (dropna df)"

subsection \<open>Stage 4: aggregation (lines 74-80)\<close>

definition required_columns :: "string list" where
  "required_columns = [''country'', ''date'', ''cases'', ''deaths'', ''recovered'']"

text \<open>The grouping key of a row: its country and date cells.\<close>

definition key_of :: "dataframe \<Rightarrow> scalar list \<Rightarrow> scalar \<times> scalar" where
  "key_of df r =
     (cell r (col_index ''country'' (columns df)), cell r (col_index ''date'' (columns df)))"

text \<open>
  \<^verbatim>\<open>groupby\<close> sorts the group keys (sort=True). Numbers are ordered by value, strings
  lexicographically by character code; in a column that mixes both, pandas puts the
  numbers before the strings (and missing values last).
\<close>

fun scalar_key :: "scalar \<Rightarrow> nat \<times> int \<times> string" where
  "scalar_key (Num n) = (0, n, [])"
| "scalar_key (Str s) = (1, 0, s)"
| "scalar_key Null = (2, 0, [])"

definition order_key :: "scalar \<times> scalar \<Rightarrow> (nat \<times> int \<times> string) \<times> (nat \<times> int \<times> string)" where
  "order_key k = (scalar_key (fst k), scalar_key (snd k))"

text \<open>Rows with a missing value in a key column belong to no group (dropna=True).\<close>

definition keyed_rows :: "dataframe \<Rightarrow> scalar list list" where
  "keyed_rows df = filter (\<lambda>r. fst (key_of df r) \<noteq> Null \<and> snd (key_of df r) \<noteq> Null) (rows df)"

definition group_keys :: "dataframe \<Rightarrow> (scalar \<times> scalar) list" where
  "group_keys df = sort_key order_key (remdups (map (key_of df) (keyed_rows df)))"

definition group_rows :: "dataframe \<Rightarrow> scalar \<times> scalar \<Rightarrow> scalar list list" where
  "group_rows df k = filter (\<lambda>r. key_of df r = k) (keyed_rows df)"

text \<open>
  The \<^verbatim>\<open>'sum'\<close> aggregation adds the values of a group in row order: numbers add,
  strings concatenate, a string and a number raise TypeError. Missing values are
  skipped, and a group without values sums to 0. How pandas adds numbers depends on the
  column: an object column holds Python integers, added exactly; an int64 column wraps
  around at 2^63; a float64 column (integers read next to a missing value) rounds. The
  three agree with the exact addition written here as long as the absolute values of a
  group add up to at most 2^53 (\<open>exact_sum\<close> below), and the totals are stated under
  that bound.
\<close>

fun py_add :: "scalar \<Rightarrow> scalar \<Rightarrow> error + scalar" where
  "py_add (Num a) (Num b) = Inr (Num (a + b))"
| "py_add (Str a) (Str b) = Inr (Str (a @ b))"
| "py_add v w = Inl TypeError"

fun sum_from :: "scalar \<Rightarrow> scalar list \<Rightarrow> error + scalar" where
  "sum_from acc [] = Inr acc"
| "sum_from acc (v # vs) =
     (case py_add acc v of Inl e \<Rightarrow> Inl e | Inr a \<Rightarrow> sum_from a vs)"

definition group_sum :: "scalar list \<Rightarrow> error + scalar" where
  "group_sum vs =
     (case filter (\<lambda>v. v \<noteq> Null) vs of [] \<Rightarrow> Inr (Num 0) | v # rest \<Rightarrow> sum_from v rest)"

definition group_column :: "dataframe \<Rightarrow> scalar \<times> scalar \<Rightarrow> string \<Rightarrow> scalar list" where
  "group_column df k n = map (\<lambda>r. cell r (col_index n (columns df))) (group_rows df k)"

text \<open>One output row per group: the key, then the three sums.\<close>

definition agg_row :: "dataframe \<Rightarrow> scalar \<times> scalar \<Rightarrow> error + scalar list" where
  "agg_row df k =
     (case group_sum (group_column df k ''cases'') of Inl e \<Rightarrow> Inl e | Inr c \<Rightarrow>
      (case group_sum (group_column df k ''deaths'') of Inl e \<Rightarrow> Inl e | Inr d \<Rightarrow>
       (case group_sum (group_column df k ''recovered'') of Inl e \<Rightarrow> Inl e | Inr v \<Rightarrow>
          Inr [fst k, snd k, c, d, v])))"

fun collect :: "(error + 'a) list \<Rightarrow> error + 'a list" where
  "collect [] = Inr []"
| "collect (x # xs) =
     (case x of Inl e \<Rightarrow> Inl e
      | Inr v \<Rightarrow> (case collect xs of Inl e \<Rightarrow> Inl e | Inr vs \<Rightarrow> Inr (v # vs)))"

text \<open>
  \<^verbatim>\<open>df.groupby(['country', 'date']).agg({...}).reset_index()\<close>. The result has the two
  key columns followed by the three aggregated columns. When a required label is carried
  by two columns, what pandas does depends on its version: a doubled key raises
  ValueError, a doubled summed label raises AttributeError in pandas 2.2 and gives one
  output column per occurrence in pandas 3.1. The model answers ValueError there, and
  what is stated about the columns and the cells of the aggregation is stated for
  frames whose labels are distinct.
\<close>

definition groupby_sum :: "dataframe \<Rightarrow> error + dataframe" where
  "groupby_sum df =
     (if \<exists>n \<in> set required_columns. count_list (columns df) n \<noteq> 1 then Inl ValueError
      else (case collect (map (agg_row df) (group_keys df)) of
              Inl e \<Rightarrow> Inl e
            | Inr rs \<Rightarrow> Inr \<lparr>columns = required_columns, rows = rs\<rparr>))"

definition aggregate :: "dataframe \<Rightarrow> error + dataframe" where
  "aggregate df =
     (if set required_columns \<subseteq> set (columns df) then groupby_sum df else Inr df)"

subsection \<open>The pipeline (lines 61-80)\<close>

definition clean_data :: "dataframe \<Rightarrow> error + dataframe" where
  "clean_data df =
     (case stage1 df of
        Inl e \<Rightarrow> Inl e
      | Inr nd \<Rightarrow>
          (case clean_country nd of
             Inl e \<Rightarrow> Inl e
           | Inr d \<Rightarrow> aggregate (filter_rows d)))"

subsection \<open>The view (lines 27-91)\<close>

text \<open>
  The request carries its uploaded files by form field name; a file has the name the
  client sent and its bytes. The two decoders \<^verbatim>\<open>pd.read_csv\<close> and \<^verbatim>\<open>pd.read_json\<close>
  are parameters of the view; a decoder that raises returns its error. The test
  \<^verbatim>\<open>if file:\<close> of line 46 is the truth value of a werkzeug FileStorage, which is that
  of its filename; when it fails the view falls off its end and returns nothing.
\<close>

record file_storage =
  filename :: string
  content :: string

record request =
  files :: "string \<rightharpoonup> file_storage"

text \<open>
  The file system, as far as the view uses it: what is stored at each path (an upload as
  received, or the cleaned table written by \<^verbatim>\<open>to_csv\<close>), and which paths it lets the
  view open for writing (the directory exists, the name is not too long, ...).
\<close>

datatype stored = Upload string | Cleaned dataframe

record storage =
  stored_at :: "string \<rightharpoonup> stored"
  writable :: "string \<Rightarrow> bool"

text \<open>
  What the view gives back: a plain-text body, the rendered result page (the table and
  the download name), an exception that leaves the view, or no return value at all.
\<close>

datatype response = Text string | ResultPage dataframe string | Raised error | NoResponse

text \<open>\<^verbatim>\<open>os.path.join\<close> of two components: an absolute second component replaces the first.\<close>

definition path_join :: "string \<Rightarrow> string \<Rightarrow> string" where
  "path_join a b =
     (if b \<noteq> [] \<and> hd b = CHR ''/'' then b
      else if a = [] \<or> last a = CHR ''/'' then a @ b
      else a @ ''/'' @ b)"

definition upload_folder :: string where
  "upload_folder = ''uploads''"

text \<open>
  A path whose last component is empty, \<^verbatim>\<open>.\<close> or \<^verbatim>\<open>..\<close> names a directory on every
  file system.
\<close>

definition last_component :: "string \<Rightarrow> string" where
  "last_component p = rev (takeWhile (\<lambda>c. c \<noteq> CHR ''/'') (rev p))"

definition names_directory :: "string \<Rightarrow> bool" where
  "names_directory p = (last_component p \<in> {[], ''.'', ''..''})"

text \<open>
  \<^verbatim>\<open>file.save(path)\<close> and \<^verbatim>\<open>df.to_csv(path)\<close> open the path for writing. Python
  raises ValueError for a path with a NUL character and an OSError (IsADirectoryError,
  FileNotFoundError, ...) when the path names a directory or the file system refuses it;
  nothing is written then.
\<close>

definition write_file :: "storage \<Rightarrow> string \<Rightarrow> stored \<Rightarrow> error + storage" where
  "write_file st p v =
     (if CHR 0x00 \<in> set p then Inl ValueError
      else if names_directory p \<or> \<not> writable st p then Inl OSError
      else Inr (st\<lparr>stored_at := (stored_at st)(p \<mapsto> v)\<rparr>))"

text \<open>Lines 60-91: clean the parsed table, write it under the fixed name, render it.\<close>

definition process :: "dataframe \<Rightarrow> storage \<Rightarrow> response \<times> storage" where
  "process df st =
     (case clean_data df of
        Inl e \<Rightarrow> (Raised e, st)
      | Inr d \<Rightarrow>
          (case write_file st (path_join upload_folder ''cleaned_data.csv'') (Cleaned d) of
             Inl e \<Rightarrow> (Raised e, st)
           | Inr st2 \<Rightarrow> (ResultPage d ''cleaned_data.csv'', st2)))"

text \<open>
  The upload is saved (line 51) before its name is tested (lines 53-58), so a failing
  save leaves the view as an exception before any answer about the format.
\<close>

definition upload_file ::
  "(string \<Rightarrow> error + dataframe) \<Rightarrow> (string \<Rightarrow> error + dataframe) \<Rightarrow>
     request \<Rightarrow> storage \<Rightarrow> response \<times> storage" where
  "upload_file read_csv read_json req st =
     (case files req ''file'' of
        None \<Rightarrow> (Text ''No file part'', st)
      | Some file \<Rightarrow>
          if filename file = [] then (Text ''No selected file'', st)
          else if filename file \<noteq> [] then
            (case write_file st (path_join upload_folder (filename file))
                    (Upload (content file)) of
               Inl e \<Rightarrow> (Raised e, st)
             | Inr st1 \<Rightarrow>
                 if endswith (filename file) ''.csv'' then
                   (case read_csv (content file) of
                      Inl e \<Rightarrow> (Raised e, st1) | Inr df \<Rightarrow> process df st1)
                 else if endswith (filename file) ''.json'' then
                   (case read_json (content file) of
                      Inl e \<Rightarrow> (Raised e, st1) | Inr df \<Rightarrow> process df st1)
                 else (Text ''Unsupported file format'', st1))
          else (NoResponse, st))"

subsection \<open>Notions used to state the properties\<close>

text \<open>A dataset without missing values, as \<^verbatim>\<open>dropna\<close> leaves it.\<close>

definition no_missing :: "dataframe \<Rightarrow> bool" where
  "no_missing df = (\<forall>r \<in> set (rows df). Null \<notin> set r)"

text \<open>
  The sum of a list of values, stated independently of the aggregation: numbers add up,
  strings are joined in order.
\<close>

fun num_of :: "scalar \<Rightarrow> int" where
  "num_of (Num n) = n"
| "num_of v = 0"

fun str_of :: "scalar \<Rightarrow> string" where
  "str_of (Str s) = s"
| "str_of v = []"

definition column_total :: "scalar list \<Rightarrow> scalar" where
  "column_total vs =
     (if \<exists>v \<in> set vs. is_str v then Str (concat (map str_of vs))
      else Num (sum_list (map num_of vs)))"

text \<open>Within every group, column \<open>n\<close> holds strings only or no string at all.\<close>

definition same_kind :: "dataframe \<Rightarrow> string \<Rightarrow> bool" where
  "same_kind df n =
     (\<forall>r \<in> set (rows df). \<forall>r' \<in> set (rows df). key_of df r = key_of df r' \<longrightarrow>
        is_str (cell r (col_index n (columns df))) = is_str (cell r' (col_index n (columns df))))"

text \<open>
  The positions of the rows that satisfy \<open>P\<close> and equal no earlier row.
\<close>

definition first_positions :: "('a \<Rightarrow> bool) \<Rightarrow> 'a list \<Rightarrow> nat list" where
  "first_positions P xs =
     filter (\<lambda>i. P (xs ! i) \<and> (\<forall>j<i. xs ! j \<noteq> xs ! i)) [0..<length xs]"







text \<open>The values of column \<open>n\<close> in the rows with key \<open>k\<close>, in row order.\<close>

definition group_values :: "dataframe \<Rightarrow> scalar \<times> scalar \<Rightarrow> string \<Rightarrow> scalar list" where
  "group_values df k n =
     map (\<lambda>r. cell r (col_index n (columns df))) (filter (\<lambda>r. key_of df r = k) (rows df))"

text \<open>The row the spec expects for the group with key \<open>k\<close>: the key and the three totals.\<close>

definition total_row :: "dataframe \<Rightarrow> scalar \<times> scalar \<Rightarrow> scalar list" where
  "total_row df k =
     [fst k, snd k, column_total (group_values df k ''cases''),
      column_total (group_values df k ''deaths''),
      column_total (group_values df k ''recovered'')]"




text \<open>
  Some group mixes strings and numbers in one of the summed columns of a frame that has
  the five columns.
\<close>

definition mixed_groups :: "dataframe \<Rightarrow> bool" where
  "mixed_groups df =
     (set required_columns \<subseteq> set (columns df) \<and>
      \<not> (same_kind df ''cases'' \<and> same_kind df ''deaths'' \<and> same_kind df ''recovered''))"

text \<open>
  The absolute values of the numbers of a list add up to at most 2^53. Within this bound
  every partial sum is an integer that int64 and float64 hold exactly, so the additions
  of pandas are exact.
\<close>

definition exact_sum :: "scalar list \<Rightarrow> bool" where
  "exact_sum vs = (sum_list (map (\<lambda>v. \<bar>num_of v\<bar>) vs) \<le> 2 ^ 53)"

subsection \<open>Example data\<close>

definition ex_extra :: dataframe where
  "ex_extra =
     \<lparr>columns = [''note'', ''country'', ''date'', ''cases'', ''deaths'', ''recovered''],
      rows = [[Str ''x'', Str ''Usa'', Str ''2020-01-02'', Num 5, Num 1, Num 2],
              [Str ''y'', Str ''France'', Str ''2020-01-01'', Num 3, Num 0, Num 1],
              [Str ''z'', Str ''Usa'', Str ''2020-01-02'', Num 7, Num 2, Num 2]]\<rparr>"

definition ex_extra_agg :: dataframe where
  "ex_extra_agg =
     \<lparr>columns = [''country'', ''date'', ''cases'', ''deaths'', ''recovered''],
      rows = [[Str ''France'', Str ''2020-01-01'', Num 3, Num 0, Num 1],
              [Str ''Usa'', Str ''2020-01-02'', Num 12, Num 3, Num 4]]\<rparr>"

definition ex_partial :: dataframe where
  "ex_partial =
     \<lparr>columns = [''country'', ''date'', ''cases'', ''deaths''],
      rows = [[Str ''Usa'', Str ''2020-01-02'', Num 5, Num 1],
              [Str ''Usa'', Str ''2020-01-02'', Num 7, Num 2]]\<rparr>"

definition no_parse :: "string \<Rightarrow> error + dataframe" where
  "no_parse s = Inl ParseError"

definition ex_store :: storage where
  "ex_store = \<lparr>stored_at = Map.empty, writable = (\<lambda>p. True)\<rparr>"

definition ex_dotdot :: file_storage where
  "ex_dotdot = \<lparr>filename = ''..'', content = ''hello''\<rparr>"

definition ex_txt :: file_storage where
  "ex_txt = \<lparr>filename = ''notes.txt'', content = ''hello''\<rparr>"

definition ex_unnamed :: file_storage where
  "ex_unnamed = \<lparr>filename = [], content = []\<rparr>"

definition ex_dirty :: dataframe where
  "ex_dirty =
     \<lparr>columns = [''country'', ''cases''],
      rows = [[Str ''Usa'', Num 1], [Null, Num 2], [Str ''Usa'', Num 1],
              [Str ''Peru'', Num 3], [Str ''Peru'', Null], [Str ''Usa'', Num 1]]\<rparr>"



definition ex_mixed :: dataframe where
  "ex_mixed =
     \<lparr>columns = [''country'', ''date'', ''cases'', ''deaths'', ''recovered''],
      rows = [[Str ''Usa'', Str ''2020-01-02'', Num 5, Num 1, Num 2],
              [Str ''Usa'', Str ''2020-01-02'', Str ''seven'', Num 2, Num 2]]\<rparr>"









section \<open>Properties\<close>

subsection \<open>Characters and strings\<close>

lemma of_char_to_lower_upper:
  "is_upper c \<Longrightarrow> (of_char (to_lower c) :: nat) = of_char c + 32"
  by (simp add: to_lower_def is_upper_def)


lemma to_lower_idem: "to_lower (to_lower c) = to_lower c"
  by (simp add: to_lower_def is_upper_def)

lemma to_lower_not_space: "to_lower c = CHR '' '' \<longleftrightarrow> c = CHR '' ''"
proof (cases "is_upper c")
  case True
  then have "(of_char (to_lower c) :: nat) \<noteq> of_char (CHR '' '')"
    by (simp add: of_char_to_lower_upper is_upper_def)
  moreover from True have "c \<noteq> CHR '' ''"
    by (auto simp: is_upper_def)
  ultimately show ?thesis by auto
next
  case False
  then show ?thesis by (simp add: to_lower_def)
qed

lemma to_lower_underscore: "to_lower (CHR ''_'') = CHR ''_''"
  by (simp add: to_lower_def is_upper_def)

lemma normalize_column_idem: "normalize_column (normalize_column n) = normalize_column n"
  by (induction n)
     (simp_all add: normalize_column_def lower_def replace_space_def
        to_lower_idem to_lower_not_space to_lower_underscore)

subsection \<open>Stage 1 is idempotent\<close>

text \<open>
  Claim C4. Normalising the column names of a dataset twice gives the same dataset as
  normalising them once: the labels are the same and the cells are the same.
\<close>

theorem normalize_columns_idempotent:
  "normalize_columns (normalize_columns df) = normalize_columns df"
  by (simp add: normalize_columns_def normalize_column_idem)

subsection \<open>The view refuses a request without a file\<close>

text \<open>
  Claim C8. A request with no part named \<^verbatim>\<open>file\<close> is answered with the text
  "No file part", and a request whose file has the empty name with the text
  "No selected file". In both cases the answer does not depend on the decoders, and the
  upload folder is left as it was: nothing is stored, parsed or cleaned.
\<close>

theorem upload_file_missing:
  "(files req ''file'' = None \<longrightarrow>
      upload_file read_csv read_json req st = (Text ''No file part'', st)) \<and>
   (\<forall>f. files req ''file'' = Some f \<and> filename f = [] \<longrightarrow>
      upload_file read_csv read_json req st = (Text ''No selected file'', st))"
  by (auto simp: upload_file_def)

theorem upload_file_missing_witness:
  "files \<lparr>files = Map.empty\<rparr> ''file'' = None \<and>
   upload_file no_parse no_parse \<lparr>files = Map.empty\<rparr> ex_store = (Text ''No file part'', ex_store) \<and>
   files \<lparr>files = [''file'' \<mapsto> ex_unnamed]\<rparr> ''file'' = Some ex_unnamed \<and>
   filename ex_unnamed = [] \<and>
   upload_file no_parse no_parse \<lparr>files = [''file'' \<mapsto> ex_unnamed]\<rparr> ex_store
     = (Text ''No selected file'', ex_store)"
  using upload_file_missing [of "\<lparr>files = Map.empty\<rparr>" no_parse no_parse ex_store]
    upload_file_missing [of "\<lparr>files = [''file'' \<mapsto> ex_unnamed]\<rparr>" no_parse no_parse ex_store]
  by (simp add: ex_unnamed_def)

subsection \<open>The view refuses other file formats\<close>

text \<open>
  Claim C7, as the code has it. Let a file with a non-empty name ending neither in
  \<^verbatim>\<open>.csv\<close> nor in \<^verbatim>\<open>.json\<close> be uploaded, and let \<open>p\<close> be the path it is saved
  under. When \<open>p\<close> can be written (no NUL character, not the name of a directory,
  accepted by the file system), the view answers with the text "Unsupported file
  format"; the answer does not depend on the decoders, and the only change to the
  upload folder is the stored upload itself: no table is parsed or cleaned and no
  cleaned file is written. When \<open>p\<close> cannot be written, the save of line 51 raises
  before the name is tested: ValueError for a NUL character, an OSError otherwise, and
  the upload folder is unchanged. (An empty name is the case of claim C8.)
\<close>

theorem upload_file_unsupported:
  assumes "files req ''file'' = Some f" and "filename f \<noteq> []"
    and "\<not> endswith (filename f) ''.csv''" and "\<not> endswith (filename f) ''.json''"
  shows
    "(CHR 0x00 \<notin> set (path_join upload_folder (filename f)) \<and>
      \<not> names_directory (path_join upload_folder (filename f)) \<and>
      writable st (path_join upload_folder (filename f)) \<longrightarrow>
        upload_file read_csv read_json req st =
          (Text ''Unsupported file format'',
           st\<lparr>stored_at := (stored_at st)
                 (path_join upload_folder (filename f) \<mapsto> Upload (content f))\<rparr>)) \<and>
     (CHR 0x00 \<in> set (path_join upload_folder (filename f)) \<longrightarrow>
        upload_file read_csv read_json req st = (Raised ValueError, st)) \<and>
     (CHR 0x00 \<notin> set (path_join upload_folder (filename f)) \<and>
      (names_directory (path_join upload_folder (filename f)) \<or>
       \<not> writable st (path_join upload_folder (filename f))) \<longrightarrow>
        upload_file read_csv read_json req st = (Raised OSError, st))"
  using assms by (simp add: upload_file_def write_file_def)

theorem upload_file_unsupported_witness:
  "files \<lparr>files = [''file'' \<mapsto> ex_txt]\<rparr> ''file'' = Some ex_txt \<and> filename ex_txt \<noteq> [] \<and>
   \<not> endswith (filename ex_txt) ''.csv'' \<and> \<not> endswith (filename ex_txt) ''.json'' \<and>
   path_join upload_folder (filename ex_txt) = ''uploads/notes.txt'' \<and>
   CHR 0x00 \<notin> set ''uploads/notes.txt'' \<and>
   \<not> names_directory ''uploads/notes.txt'' \<and> writable ex_store ''uploads/notes.txt'' \<and>
   upload_file no_parse no_parse \<lparr>files = [''file'' \<mapsto> ex_txt]\<rparr> ex_store =
     (Text ''Unsupported file format'',
      ex_store\<lparr>stored_at := [''uploads/notes.txt'' \<mapsto> Upload ''hello'']\<rparr>)"
proof -
  have h1: "files \<lparr>files = [''file'' \<mapsto> ex_txt]\<rparr> ''file'' = Some ex_txt" by simp
  have h2: "filename ex_txt \<noteq> []" by (simp add: ex_txt_def)
  have h3: "\<not> endswith (filename ex_txt) ''.csv''" by (simp add: ex_txt_def endswith_def)
  have h4: "\<not> endswith (filename ex_txt) ''.json''" by (simp add: ex_txt_def endswith_def)
  have p: "path_join upload_folder (filename ex_txt) = ''uploads/notes.txt''"
    by (simp add: path_join_def upload_folder_def ex_txt_def)
  have n: "CHR 0x00 \<notin> set ''uploads/notes.txt''" by simp
  have d: "\<not> names_directory ''uploads/notes.txt''"
    by (simp add: names_directory_def last_component_def)
  have w: "writable ex_store ''uploads/notes.txt''" by (simp add: ex_store_def)
  have c: "content ex_txt = ''hello''" by (simp add: ex_txt_def)
  have e: "stored_at ex_store = Map.empty" by (simp add: ex_store_def)
  show ?thesis
    using upload_file_unsupported [OF h1 h2 h3 h4, of ex_store no_parse no_parse]
      h1 h2 h3 h4 n d w
    unfolding p c e by simp
qed

text \<open>
  Where claim C7 as stated fails: the name \<^verbatim>\<open>..\<close> ends neither in \<^verbatim>\<open>.csv\<close> nor in
  \<^verbatim>\<open>.json\<close>, and it is saved under \<^verbatim>\<open>uploads/..\<close>, a directory. Even on a file
  system that accepts every other path the save raises, and the view gives no text
  answer.
\<close>

theorem upload_file_unsupported_counterexample:
  "files \<lparr>files = [''file'' \<mapsto> ex_dotdot]\<rparr> ''file'' = Some ex_dotdot \<and>
   filename ex_dotdot = ''..'' \<and>
   \<not> endswith (filename ex_dotdot) ''.csv'' \<and> \<not> endswith (filename ex_dotdot) ''.json'' \<and>
   path_join upload_folder (filename ex_dotdot) = ''uploads/..'' \<and>
   upload_file no_parse no_parse \<lparr>files = [''file'' \<mapsto> ex_dotdot]\<rparr> ex_store
     = (Raised OSError, ex_store)"
proof -
  have p: "path_join upload_folder (filename ex_dotdot) = ''uploads/..''"
    by (simp add: path_join_def upload_folder_def ex_dotdot_def)
  have d: "names_directory ''uploads/..''"
    by (simp add: names_directory_def last_component_def)
  have "upload_file no_parse no_parse \<lparr>files = [''file'' \<mapsto> ex_dotdot]\<rparr> ex_store
     = (Raised OSError, ex_store)"
    by (simp add: upload_file_def write_file_def p d) (simp add: ex_dotdot_def)
  then show ?thesis
    using p by (simp add: ex_dotdot_def endswith_def)
qed

subsection \<open>Stage 4 without the five columns\<close>

text \<open>
  Claim C5. A dataset that lacks at least one of the columns country, date, cases,
  deaths, recovered leaves Stage 4 unchanged: same labels, same rows, same cells.
\<close>

theorem aggregate_unchanged:
  "\<not> set required_columns \<subseteq> set (columns df) \<Longrightarrow> aggregate df = Inr df"
  by (simp add: aggregate_def)

theorem aggregate_unchanged_witness:
  "\<not> set required_columns \<subseteq> set (columns ex_partial) \<and> aggregate ex_partial = Inr ex_partial"
proof -
  have h: "\<not> set required_columns \<subseteq> set (columns ex_partial)"
    by (simp add: required_columns_def ex_partial_def)
  show ?thesis using aggregate_unchanged [OF h] h by simp
qed

subsection \<open>Stage 4: shape and order of the aggregation\<close>

lemma col_index_required:
  "col_index ''country'' required_columns = 0"
  "col_index ''date'' required_columns = 1"
  "col_index ''cases'' required_columns = 2"
  "col_index ''deaths'' required_columns = 3"
  "col_index ''recovered'' required_columns = 4"
  by (simp_all add: required_columns_def)

lemma col_index_less: "n \<in> set cs \<Longrightarrow> col_index n cs < length cs"
  by (induction cs) auto

lemma collect_Inr: "collect xs = Inr ys \<Longrightarrow> xs = map Inr ys"
  by (induction xs arbitrary: ys) (auto split: sum.splits)

lemma collect_map_Inr: "collect (map Inr ys) = Inr ys"
  by (induction ys) auto

lemma scalar_key_inj: "scalar_key a = scalar_key b \<Longrightarrow> a = b"
  by (cases a; cases b) auto

lemma order_key_inj: "inj order_key"
proof (rule injI)
  fix x y assume "order_key x = order_key y"
  then have "scalar_key (fst x) = scalar_key (fst y)" "scalar_key (snd x) = scalar_key (snd y)"
    by (simp_all add: order_key_def)
  then show "x = y" by (auto dest: scalar_key_inj intro: prod_eqI)
qed

lemma group_keys_distinct: "distinct (group_keys df)"
  by (simp add: group_keys_def)

lemma group_keys_set: "set (group_keys df) = key_of df ` set (keyed_rows df)"
  by (simp add: group_keys_def)

lemma group_keys_sorted: "sorted_wrt (<) (map order_key (group_keys df))"
  by (simp add: strict_sorted_iff group_keys_def distinct_map inj_on_subset[OF order_key_inj])

lemma groupby_sum_Inr:
  assumes "groupby_sum df = Inr df'"
  shows "columns df' = required_columns"
    and "map (agg_row df) (group_keys df) = map Inr (rows df')"
  using assms by (auto simp: groupby_sum_def split: if_splits sum.splits dest: collect_Inr)

lemma agg_row_key:
  "agg_row df k = Inr r \<Longrightarrow> columns df' = required_columns \<Longrightarrow> key_of df' r = k"
  by (auto simp: agg_row_def key_of_def col_index_required cell_def split: sum.splits)

lemma agg_rows_keys:
  assumes "map (agg_row df) ks = map Inr rs" and "columns df' = required_columns"
  shows "map (key_of df') rs = ks"
  using assms(1)
proof (induction ks arbitrary: rs)
  case Nil
  then show ?case by simp
next
  case (Cons k ks)
  then obtain r rs' where rs: "rs = r # rs'" by (cases rs) auto
  with Cons.prems have a: "agg_row df k = Inr r" and b: "map (agg_row df) ks = map Inr rs'"
    by simp_all
  show ?case
    by (simp add: rs agg_row_key[OF a assms(2)] Cons.IH[OF b])
qed

lemma aggregate_keys:
  assumes "set required_columns \<subseteq> set (columns df)" and "aggregate df = Inr df'"
  shows "columns df' = required_columns" and "map (key_of df') (rows df') = group_keys df"
proof -
  from assms have g: "groupby_sum df = Inr df'" by (simp add: aggregate_def)
  show c: "columns df' = required_columns" by (rule groupby_sum_Inr(1)[OF g])
  show "map (key_of df') (rows df') = group_keys df"
    by (rule agg_rows_keys[OF groupby_sum_Inr(2)[OF g] c])
qed

lemma agg_row_length: "agg_row df k = Inr r \<Longrightarrow> length r = 5"
  by (auto simp: agg_row_def split: sum.splits)

lemma aggregate_row_length:
  assumes "set required_columns \<subseteq> set (columns df)" and "aggregate df = Inr df'"
    and "r \<in> set (rows df')"
  shows "length r = 5"
proof -
  from assms have g: "groupby_sum df = Inr df'" by (simp add: aggregate_def)
  from assms(3) have "Inr r \<in> set (map (agg_row df) (group_keys df))"
    unfolding groupby_sum_Inr(2)[OF g] by simp
  then show ?thesis by (auto dest: agg_row_length[OF sym])
qed

lemma ex_extra_required: "set required_columns \<subseteq> set (columns ex_extra)"
  by (simp add: required_columns_def ex_extra_def)

lemma ex_extra_aggregate: "aggregate ex_extra = Inr ex_extra_agg"
  by code_simp

text \<open>
  Claim C9. When the dataset entering Stage 4 (a dataset: its column names are distinct)
  has the five columns, whatever other columns it has, the aggregated dataset has
  exactly the columns country, date, cases, deaths, recovered, in this order, and each
  of its rows has these five cells: every other column is dropped.
\<close>

theorem aggregate_columns:
  assumes "distinct (columns df)"
    and "set required_columns \<subseteq> set (columns df)" and "aggregate df = Inr df'"
  shows "columns df' = [''country'', ''date'', ''cases'', ''deaths'', ''recovered'']
         \<and> (\<forall>r \<in> set (rows df'). length r = 5)"
  using aggregate_keys(1)[OF assms(2,3)] aggregate_row_length[OF assms(2,3)]
  by (simp add: required_columns_def)

theorem aggregate_columns_witness:
  "distinct (columns ex_extra) \<and>
   set required_columns \<subseteq> set (columns ex_extra) \<and> aggregate ex_extra = Inr ex_extra_agg \<and>
   ''note'' \<in> set (columns ex_extra) \<and>
   columns ex_extra_agg = [''country'', ''date'', ''cases'', ''deaths'', ''recovered''] \<and>
   map length (rows ex_extra_agg) = [5, 5]"
proof -
  have d: "distinct (columns ex_extra)" by (simp add: ex_extra_def)
  show ?thesis
    using aggregate_columns [OF d ex_extra_required ex_extra_aggregate]
      d ex_extra_required ex_extra_aggregate
    by (simp add: ex_extra_def ex_extra_agg_def)
qed

text \<open>
  Claim C10. The rows of the aggregated dataset are in strictly ascending order of their
  key (country, date), compared lexicographically: first by country, then by date. This
  is the sorted order of the keys, not the order in which the keys first occur in the
  input.
\<close>

theorem aggregate_sorted:
  assumes "set required_columns \<subseteq> set (columns df)" and "aggregate df = Inr df'"
  shows "sorted_wrt (<) (map (\<lambda>r. order_key (key_of df' r)) (rows df'))"
proof -
  have "map (\<lambda>r. order_key (key_of df' r)) (rows df') = map order_key (map (key_of df') (rows df'))"
    by simp
  also have "\<dots> = map order_key (group_keys df)"
    by (simp only: aggregate_keys(2)[OF assms])
  finally show ?thesis by (simp only: group_keys_sorted)
qed

theorem aggregate_sorted_witness:
  "set required_columns \<subseteq> set (columns ex_extra) \<and> aggregate ex_extra = Inr ex_extra_agg \<and>
   sorted_wrt (<) (map (\<lambda>r. order_key (key_of ex_extra_agg r)) (rows ex_extra_agg)) \<and>
   map (key_of ex_extra) (rows ex_extra) =
     [(Str ''Usa'', Str ''2020-01-02''), (Str ''France'', Str ''2020-01-01''),
      (Str ''Usa'', Str ''2020-01-02'')] \<and>
   map (key_of ex_extra_agg) (rows ex_extra_agg) =
     [(Str ''France'', Str ''2020-01-01''), (Str ''Usa'', Str ''2020-01-02'')]"
proof -
  have k1: "map (key_of ex_extra) (rows ex_extra) =
     [(Str ''Usa'', Str ''2020-01-02''), (Str ''France'', Str ''2020-01-01''),
      (Str ''Usa'', Str ''2020-01-02'')]"
    by (simp add: ex_extra_def key_of_def cell_def)
  have k2: "map (key_of ex_extra_agg) (rows ex_extra_agg) =
     [(Str ''France'', Str ''2020-01-01''), (Str ''Usa'', Str ''2020-01-02'')]"
    by (simp add: ex_extra_agg_def key_of_def cell_def)
  show ?thesis
    using aggregate_sorted [OF ex_extra_required ex_extra_aggregate]
      ex_extra_required ex_extra_aggregate k1 k2
    by simp
qed

subsection \<open>Stage 3: rows without missing values, first occurrences only\<close>

lemma keep_first_set: "set (keep_first seen xs) = set xs - set seen"
  by (induction xs arbitrary: seen) auto

lemma keep_first_distinct: "distinct (keep_first seen xs)"
  by (induction xs arbitrary: seen) (auto simp: keep_first_set)

lemma keep_first_snoc:
  "keep_first seen (xs @ [x]) =
     keep_first seen xs @ (if x \<in> set seen \<union> set xs then [] else [x])"
  by (induction xs arbitrary: seen) auto

lemma first_positions_snoc:
  "first_positions P (xs @ [x]) =
     first_positions P xs @ (if P x \<and> x \<notin> set xs then [length xs] else [])"
proof -
  have a: "filter (\<lambda>i. P ((xs @ [x]) ! i) \<and> (\<forall>j<i. (xs @ [x]) ! j \<noteq> (xs @ [x]) ! i)) [0..<length xs]
        = filter (\<lambda>i. P (xs ! i) \<and> (\<forall>j<i. xs ! j \<noteq> xs ! i)) [0..<length xs]"
    by (rule filter_cong) (auto simp: nth_append)
  have b: "(\<forall>j<length xs. (xs @ [x]) ! j \<noteq> x) \<longleftrightarrow> x \<notin> set xs"
    by (auto simp: nth_append in_set_conv_nth)
  show ?thesis
    unfolding first_positions_def using a b by simp
qed

lemma keep_first_filter_positions:
  "keep_first [] (filter P xs) = map (\<lambda>i. xs ! i) (first_positions P xs)"
proof (induction xs rule: rev_induct)
  case Nil
  then show ?case by (simp add: first_positions_def)
next
  case (snoc x xs)
  have m: "map (\<lambda>i. (xs @ [x]) ! i) (first_positions P xs) = map (\<lambda>i. xs ! i) (first_positions P xs)"
    by (rule map_cong) (auto simp: first_positions_def nth_append)
  show ?case
    using snoc.IH m by (auto simp: keep_first_snoc first_positions_snoc)
qed

text \<open>
  Claim C2. The output of Stage 3 has the columns of its input, no row with a missing
  value and no two equal rows. It consists of the rows of the input, in their input
  order, that have no missing value and equal no earlier row: of equal rows the first is
  kept and the later ones are dropped.
\<close>

theorem filter_rows_first_occurrences:
  "columns (filter_rows df) = columns df \<and>
   (\<forall>r \<in> set (rows (filter_rows df)). Null \<notin> set r) \<and>
   distinct (rows (filter_rows df)) \<and>
   rows (filter_rows df) =
     map (\<lambda>i. rows df ! i)
       (filter (\<lambda>i. Null \<notin> set (rows df ! i) \<and> (\<forall>j<i. rows df ! j \<noteq> rows df ! i))
          [0..<length (rows df)])"
proof -
  let ?keep = "filter (\<lambda>r. Null \<notin> set r) (rows df)"
  have r: "rows (filter_rows df) = keep_first [] ?keep"
    by (simp add: filter_rows_def drop_duplicates_def dropna_def)
  have c: "columns (filter_rows df) = columns df"
    by (simp add: filter_rows_def drop_duplicates_def dropna_def)
  have n: "\<forall>r \<in> set (rows (filter_rows df)). Null \<notin> set r"
    by (simp add: r keep_first_set)
  have d: "distinct (rows (filter_rows df))"
    by (simp add: r keep_first_distinct)
  have p: "rows (filter_rows df) =
     map (\<lambda>i. rows df ! i)
       (filter (\<lambda>i. Null \<notin> set (rows df ! i) \<and> (\<forall>j<i. rows df ! j \<noteq> rows df ! i))
          [0..<length (rows df)])"
    unfolding r keep_first_filter_positions first_positions_def ..
  from c n d p show ?thesis by blast
qed

theorem filter_rows_first_occurrences_witness:
  "columns (filter_rows ex_dirty) = [''country'', ''cases''] \<and>
   rows (filter_rows ex_dirty) = [[Str ''Usa'', Num 1], [Str ''Peru'', Num 3]] \<and>
   rows (filter_rows ex_dirty) = map (\<lambda>i. rows ex_dirty ! i) [0, 3] \<and>
   distinct (rows (filter_rows ex_dirty))"
proof -
  have r: "rows (filter_rows ex_dirty) = [[Str ''Usa'', Num 1], [Str ''Peru'', Num 3]]"
    by (simp add: filter_rows_def drop_duplicates_def dropna_def ex_dirty_def)
  have i: "map (\<lambda>i. rows ex_dirty ! i) [0, 3] = [[Str ''Usa'', Num 1], [Str ''Peru'', Num 3]]"
    by (simp add: ex_dirty_def)
  show ?thesis
    using filter_rows_first_occurrences [of ex_dirty] r i
    by (simp add: ex_dirty_def)
qed

subsection \<open>Stage 2: what happens to the country column\<close>




























subsection \<open>Stage 4: what the aggregation computes\<close>

lemma sum_from_num:
  "\<forall>v \<in> set vs. \<not> is_str v \<and> v \<noteq> Null \<Longrightarrow>
   sum_from (Num a) vs = Inr (Num (a + sum_list (map num_of vs)))"
proof (induction vs arbitrary: a)
  case Nil
  then show ?case by simp
next
  case (Cons v vs)
  then obtain n where "v = Num n" by (cases v) auto
  with Cons show ?case by (simp add: add.assoc)
qed

lemma sum_from_str:
  "\<forall>v \<in> set vs. is_str v \<Longrightarrow>
   sum_from (Str a) vs = Inr (Str (a @ concat (map str_of vs)))"
proof (induction vs arbitrary: a)
  case Nil
  then show ?case by simp
next
  case (Cons v vs)
  then obtain s where "v = Str s" by (cases v) auto
  with Cons show ?case by simp
qed

lemma group_sum_total:
  assumes "Null \<notin> set vs" and "\<forall>v \<in> set vs. \<forall>w \<in> set vs. is_str v = is_str w"
  shows "group_sum vs = Inr (column_total vs)"
proof (cases vs)
  case Nil
  then show ?thesis by (simp add: group_sum_def column_total_def)
next
  case (Cons v rest)
  from assms(1) have f: "filter (\<lambda>v. v \<noteq> Null) vs = vs"
    by (auto simp: filter_id_conv)
  show ?thesis
  proof (cases "is_str v")
    case True
    with assms(2) Cons have all: "\<forall>w \<in> set vs. is_str w" by auto
    from True obtain s where v: "v = Str s" by (cases v) auto
    from all Cons have "sum_from (Str s) rest = Inr (Str (s @ concat (map str_of rest)))"
      by (intro sum_from_str) simp
    with f Cons v show ?thesis by (simp add: group_sum_def column_total_def)
  next
    case False
    with assms(2) Cons have none: "\<forall>w \<in> set vs. \<not> is_str w" by auto
    from False assms(1) Cons obtain n where v: "v = Num n" by (cases v) auto
    from none assms(1) Cons have "sum_from (Num n) rest = Inr (Num (n + sum_list (map num_of rest)))"
      by (intro sum_from_num) auto
    with f Cons v none show ?thesis by (simp add: group_sum_def column_total_def)
  qed
qed

lemma count_list_one: "distinct xs \<Longrightarrow> x \<in> set xs \<Longrightarrow> count_list xs x = 1"
  by (induction xs) auto

lemma cell_not_Null:
  assumes "well_formed df" and "no_missing df" and "n \<in> set (columns df)" and "r \<in> set (rows df)"
  shows "cell r (col_index n (columns df)) \<noteq> Null"
proof -
  from assms(1,4) have "length r = length (columns df)" by (simp add: well_formed_def)
  with col_index_less[OF assms(3)] have i: "col_index n (columns df) < length r" by simp
  then have "r ! col_index n (columns df) \<in> set r" by simp
  moreover from assms(2,4) have "Null \<notin> set r" by (simp add: no_missing_def)
  ultimately have "r ! col_index n (columns df) \<noteq> Null" by metis
  with i show ?thesis by (simp add: cell_def)
qed

lemma keyed_rows_all:
  assumes "well_formed df" and "no_missing df"
    and "''country'' \<in> set (columns df)" and "''date'' \<in> set (columns df)"
  shows "keyed_rows df = rows df"
  unfolding keyed_rows_def key_of_def
  using cell_not_Null[OF assms(1,2,3)] cell_not_Null[OF assms(1,2,4)]
  by (simp add: filter_id_conv)

lemma group_sum_column:
  assumes "well_formed df" and "no_missing df"
    and "''country'' \<in> set (columns df)" and "''date'' \<in> set (columns df)"
    and "n \<in> set (columns df)" and "same_kind df n"
  shows "group_sum (group_column df k n) = Inr (column_total (group_values df k n))"
proof -
  have g: "group_column df k n = group_values df k n"
    by (simp add: group_column_def group_values_def group_rows_def keyed_rows_all[OF assms(1-4)])
  have "Null \<notin> set (group_values df k n)"
  proof
    assume "Null \<in> set (group_values df k n)"
    then obtain r where "r \<in> set (rows df)" "cell r (col_index n (columns df)) = Null"
      by (auto simp: group_values_def)
    with cell_not_Null[OF assms(1,2,5)] show False by blast
  qed
  moreover have "\<forall>v \<in> set (group_values df k n). \<forall>w \<in> set (group_values df k n). is_str v = is_str w"
    using assms(6) by (auto simp: group_values_def same_kind_def)
  ultimately show ?thesis unfolding g by (rule group_sum_total)
qed

lemma required_members:
  assumes "set required_columns \<subseteq> set (columns df)"
  shows "''country'' \<in> set (columns df)" "''date'' \<in> set (columns df)"
    "''cases'' \<in> set (columns df)" "''deaths'' \<in> set (columns df)"
    "''recovered'' \<in> set (columns df)"
  using assms by (simp_all add: required_columns_def)

lemma aggregate_total:
  assumes "well_formed df" and "no_missing df"
    and "set required_columns \<subseteq> set (columns df)"
    and "same_kind df ''cases''" and "same_kind df ''deaths''" and "same_kind df ''recovered''"
  shows "aggregate df =
     Inr \<lparr>columns = required_columns, rows = map (total_row df) (group_keys df)\<rparr>"
proof -
  note m = required_members[OF assms(3)]
  have row: "agg_row df k = Inr (total_row df k)" for k
    by (simp add: agg_row_def total_row_def
        group_sum_column[OF assms(1,2) m(1,2) m(3) assms(4)]
        group_sum_column[OF assms(1,2) m(1,2) m(4) assms(5)]
        group_sum_column[OF assms(1,2) m(1,2) m(5) assms(6)])
  from assms(1) have d: "distinct (columns df)" by (simp add: well_formed_def)
  have one: "\<not> (\<exists>n \<in> set required_columns. count_list (columns df) n \<noteq> 1)"
    using assms(3) count_list_one[OF d] by auto
  have "map (agg_row df) (group_keys df) = map Inr (map (total_row df) (group_keys df))"
    by (simp add: row)
  then have "collect (map (agg_row df) (group_keys df)) = Inr (map (total_row df) (group_keys df))"
    by (simp only: collect_map_Inr)
  with one assms(3) show ?thesis
    by (simp add: aggregate_def groupby_sum_def)
qed


lemma total_row_key:
  "columns df' = required_columns \<Longrightarrow> key_of df' (total_row df k) = k"
  by (simp add: key_of_def total_row_def col_index_required cell_def)

lemma total_row_cells:
  assumes "columns df' = required_columns"
  shows "cell (total_row df k) (col_index ''cases'' (columns df'))
           = column_total (group_values df k ''cases'')"
    and "cell (total_row df k) (col_index ''deaths'' (columns df'))
           = column_total (group_values df k ''deaths'')"
    and "cell (total_row df k) (col_index ''recovered'' (columns df'))
           = column_total (group_values df k ''recovered'')"
  using assms by (simp_all add: total_row_def col_index_required cell_def)

lemma py_add_same:
  assumes "a \<noteq> Null" and "v \<noteq> Null" and "is_str v = is_str a"
  shows "\<exists>b. py_add a v = Inr b \<and> b \<noteq> Null \<and> is_str b = is_str a"
  using assms by (cases a; cases v) auto

lemma py_add_other:
  assumes "a \<noteq> Null" and "v \<noteq> Null" and "is_str v \<noteq> is_str a"
  shows "py_add a v = Inl TypeError"
  using assms by (cases a; cases v) auto

lemma py_add_error: "py_add a v = Inl e \<Longrightarrow> e = TypeError"
  by (cases a; cases v) auto

lemma sum_from_error: "sum_from a vs = Inl e \<Longrightarrow> e = TypeError"
  by (induction vs arbitrary: a) (auto split: sum.splits dest: py_add_error)

lemma group_sum_error: "group_sum vs = Inl e \<Longrightarrow> e = TypeError"
  by (auto simp: group_sum_def split: list.splits dest: sum_from_error)

lemma sum_from_mixed:
  assumes "a \<noteq> Null" and "Null \<notin> set vs" and "\<exists>w \<in> set vs. is_str w \<noteq> is_str a"
  shows "sum_from a vs = Inl TypeError"
  using assms
proof (induction vs arbitrary: a)
  case Nil
  then show ?case by simp
next
  case (Cons v vs)
  from Cons.prems(2) have v: "v \<noteq> Null" and vs: "Null \<notin> set vs" by auto
  show ?case
  proof (cases "is_str v = is_str a")
    case False
    with py_add_other[OF Cons.prems(1) v] show ?thesis by simp
  next
    case True
    from py_add_same[OF Cons.prems(1) v True]
    obtain b where b: "py_add a v = Inr b" "b \<noteq> Null" "is_str b = is_str a" by blast
    from Cons.prems(3) True have "\<exists>w \<in> set vs. is_str w \<noteq> is_str b"
      by (auto simp: b(3))
    from Cons.IH[OF b(2) vs this] b(1) show ?thesis by simp
  qed
qed

lemma group_sum_mixed:
  assumes "Null \<notin> set vs" and "v \<in> set vs" and "w \<in> set vs" and "is_str v \<noteq> is_str w"
  shows "group_sum vs = Inl TypeError"
proof (cases vs)
  case Nil
  with assms(2) show ?thesis by simp
next
  case (Cons x rest)
  from assms(1) have f: "filter (\<lambda>v. v \<noteq> Null) vs = vs"
    by (auto simp: filter_id_conv)
  from assms(1) Cons have x: "x \<noteq> Null" and rest: "Null \<notin> set rest" by auto
  from assms(2-4) Cons have "\<exists>u \<in> set rest. is_str u \<noteq> is_str x" by auto
  from sum_from_mixed[OF x rest this] f Cons show ?thesis by (simp add: group_sum_def)
qed

lemma agg_row_error: "agg_row df k = Inl e \<Longrightarrow> e = TypeError"
  by (auto simp: agg_row_def split: sum.splits dest: group_sum_error)

lemma agg_row_mixed:
  assumes "n \<in> {''cases'', ''deaths'', ''recovered''}"
    and "group_sum (group_column df k n) = Inl TypeError"
  shows "agg_row df k = Inl TypeError"
  using assms by (auto simp: agg_row_def split: sum.splits dest: group_sum_error)

lemma collect_error:
  assumes "\<forall>x \<in> set xs. \<forall>e. x = Inl e \<longrightarrow> e = TypeError" and "Inl TypeError \<in> set xs"
  shows "collect xs = Inl TypeError"
  using assms by (induction xs) (auto split: sum.splits)

lemma aggregate_mixed:
  assumes wf: "well_formed df" and nm: "no_missing df"
    and req: "set required_columns \<subseteq> set (columns df)"
    and n: "n \<in> {''cases'', ''deaths'', ''recovered''}" and mixed: "\<not> same_kind df n"
  shows "aggregate df = Inl TypeError"
proof -
  note m = required_members[OF req]
  from n m have nc: "n \<in> set (columns df)" by auto
  let ?i = "col_index n (columns df)"
  from mixed obtain r r' where r: "r \<in> set (rows df)" and r': "r' \<in> set (rows df)"
    and k: "key_of df r = key_of df r'" and d: "is_str (cell r ?i) \<noteq> is_str (cell r' ?i)"
    by (auto simp: same_kind_def)
  let ?k = "key_of df r"
  have g: "group_column df ?k n = group_values df ?k n"
    by (simp add: group_column_def group_values_def group_rows_def keyed_rows_all[OF wf nm m(1,2)])
  have nonull: "Null \<notin> set (group_values df ?k n)"
  proof
    assume "Null \<in> set (group_values df ?k n)"
    then obtain q where "q \<in> set (rows df)" "cell q ?i = Null"
      by (auto simp: group_values_def)
    with cell_not_Null[OF wf nm nc] show False by blast
  qed
  from r have a: "cell r ?i \<in> set (group_values df ?k n)" by (auto simp: group_values_def)
  from r' k have b: "cell r' ?i \<in> set (group_values df ?k n)" by (auto simp: group_values_def)
  have "group_sum (group_column df ?k n) = Inl TypeError"
    unfolding g by (rule group_sum_mixed[OF nonull a b d])
  then have row: "agg_row df ?k = Inl TypeError" by (rule agg_row_mixed[OF n])
  from r have "?k \<in> set (group_keys df)"
    by (simp add: group_keys_set keyed_rows_all[OF wf nm m(1,2)])
  with row have "Inl TypeError \<in> set (map (agg_row df) (group_keys df))"
    by (metis image_eqI set_map)
  moreover have "\<forall>x \<in> set (map (agg_row df) (group_keys df)). \<forall>e. x = Inl e \<longrightarrow> e = TypeError"
    by (auto dest: agg_row_error)
  ultimately have c: "collect (map (agg_row df) (group_keys df)) = Inl TypeError"
    by (rule collect_error[rotated])
  from wf have dc: "distinct (columns df)" by (simp add: well_formed_def)
  have one: "\<not> (\<exists>n \<in> set required_columns. count_list (columns df) n \<noteq> 1)"
    using req count_list_one[OF dc] by auto
  from c one req show ?thesis by (simp add: aggregate_def groupby_sum_def)
qed

lemma aggregate_mixed_groups:
  assumes "well_formed df" and "no_missing df" and mx: "mixed_groups df"
  shows "aggregate df = Inl TypeError"
proof -
  from mx have req: "set required_columns \<subseteq> set (columns df)" by (simp add: mixed_groups_def)
  from mx consider "\<not> same_kind df ''cases''" | "\<not> same_kind df ''deaths''"
    | "\<not> same_kind df ''recovered''"
    by (auto simp: mixed_groups_def)
  then show ?thesis
  proof cases
    case 1
    show ?thesis by (rule aggregate_mixed[OF assms(1,2) req _ 1]) simp
  next
    case 2
    show ?thesis by (rule aggregate_mixed[OF assms(1,2) req _ 2]) simp
  next
    case 3
    show ?thesis by (rule aggregate_mixed[OF assms(1,2) req _ 3]) simp
  qed
qed



text \<open>
  Claim C1, as the code has it. Let the dataset be well formed and without missing values
  (as Stages 1-3 leave it). Without all five columns Stage 4 returns the dataset as it
  is. With all five columns, if some group mixes strings and numbers in cases, deaths or
  recovered, Stage 4 raises TypeError. With all five columns and no such group it
  returns an aggregation: one row per distinct pair (country, date) of the input, so the
  row count is the number of distinct pairs and the output keys are exactly the input
  keys, each once; and in each output row, the cases, deaths and recovered value is the
  total of that column over the input rows with the same key (numbers added, strings
  joined in row order), for every group whose numbers stay within the bound of exact
  addition.
\<close>

theorem aggregate_groups:
  assumes "well_formed df" and "no_missing df"
  shows "(\<not> set required_columns \<subseteq> set (columns df) \<longrightarrow> aggregate df = Inr df) \<and>
     (mixed_groups df \<longrightarrow> aggregate df = Inl TypeError) \<and>
     (set required_columns \<subseteq> set (columns df) \<and> \<not> mixed_groups df \<longrightarrow>
       (\<exists>df'. aggregate df = Inr df' \<and>
          length (rows df') = card (key_of df ` set (rows df)) \<and>
          distinct (map (key_of df') (rows df')) \<and>
          key_of df' ` set (rows df') = key_of df ` set (rows df) \<and>
          (\<forall>out \<in> set (rows df').
             (exact_sum (group_values df (key_of df' out) ''cases'') \<longrightarrow>
                cell out (col_index ''cases'' (columns df'))
                  = column_total (group_values df (key_of df' out) ''cases'')) \<and>
             (exact_sum (group_values df (key_of df' out) ''deaths'') \<longrightarrow>
                cell out (col_index ''deaths'' (columns df'))
                  = column_total (group_values df (key_of df' out) ''deaths'')) \<and>
             (exact_sum (group_values df (key_of df' out) ''recovered'') \<longrightarrow>
                cell out (col_index ''recovered'' (columns df'))
                  = column_total (group_values df (key_of df' out) ''recovered'')))))"
proof (intro conjI impI)
  assume "\<not> set required_columns \<subseteq> set (columns df)"
  then show "aggregate df = Inr df" by (simp add: aggregate_def)
next
  assume "mixed_groups df"
  then show "aggregate df = Inl TypeError" by (rule aggregate_mixed_groups[OF assms])
next
  assume a: "set required_columns \<subseteq> set (columns df) \<and> \<not> mixed_groups df"
  then have req: "set required_columns \<subseteq> set (columns df)"
    and k1: "same_kind df ''cases''" and k2: "same_kind df ''deaths''"
    and k3: "same_kind df ''recovered''"
    by (simp_all add: mixed_groups_def)
  define df' where "df' = \<lparr>columns = required_columns, rows = map (total_row df) (group_keys df)\<rparr>"
  have c: "columns df' = required_columns" by (simp add: df'_def)
  have run: "aggregate df = Inr df'"
    unfolding df'_def by (rule aggregate_total[OF assms req k1 k2 k3])
  note m = required_members[OF req]
  have ks: "set (group_keys df) = key_of df ` set (rows df)"
    by (simp add: group_keys_set keyed_rows_all[OF assms m(1,2)])
  have keys: "map (key_of df') (rows df') = group_keys df"
  proof -
    have "rows df' = map (total_row df) (group_keys df)" by (simp add: df'_def)
    then have "map (key_of df') (rows df') = map (\<lambda>k. key_of df' (total_row df k)) (group_keys df)"
      by simp
    then show ?thesis by (simp only: total_row_key[OF c] map_ident)
  qed
  have "length (rows df') = length (group_keys df)" by (simp add: df'_def)
  also have "\<dots> = card (set (group_keys df))"
    by (simp add: distinct_card group_keys_distinct)
  finally have n: "length (rows df') = card (key_of df ` set (rows df))" by (simp add: ks)
  have d: "distinct (map (key_of df') (rows df'))" by (simp add: keys group_keys_distinct)
  have "key_of df' ` set (rows df') = set (map (key_of df') (rows df'))" by simp
  then have i: "key_of df' ` set (rows df') = key_of df ` set (rows df)"
    by (simp only: keys ks)
  have v: "\<forall>out \<in> set (rows df').
             (exact_sum (group_values df (key_of df' out) ''cases'') \<longrightarrow>
                cell out (col_index ''cases'' (columns df'))
                  = column_total (group_values df (key_of df' out) ''cases'')) \<and>
             (exact_sum (group_values df (key_of df' out) ''deaths'') \<longrightarrow>
                cell out (col_index ''deaths'' (columns df'))
                  = column_total (group_values df (key_of df' out) ''deaths'')) \<and>
             (exact_sum (group_values df (key_of df' out) ''recovered'') \<longrightarrow>
                cell out (col_index ''recovered'' (columns df'))
                  = column_total (group_values df (key_of df' out) ''recovered''))"
  proof
    fix out assume "out \<in> set (rows df')"
    then obtain k where out: "out = total_row df k" by (auto simp: df'_def)
    show "(exact_sum (group_values df (key_of df' out) ''cases'') \<longrightarrow>
                cell out (col_index ''cases'' (columns df'))
                  = column_total (group_values df (key_of df' out) ''cases'')) \<and>
             (exact_sum (group_values df (key_of df' out) ''deaths'') \<longrightarrow>
                cell out (col_index ''deaths'' (columns df'))
                  = column_total (group_values df (key_of df' out) ''deaths'')) \<and>
             (exact_sum (group_values df (key_of df' out) ''recovered'') \<longrightarrow>
                cell out (col_index ''recovered'' (columns df'))
                  = column_total (group_values df (key_of df' out) ''recovered''))"
      unfolding out total_row_key[OF c] by (simp only: total_row_cells[OF c] simp_thms)
  qed
  from run n d i v show "\<exists>df'. aggregate df = Inr df' \<and>
          length (rows df') = card (key_of df ` set (rows df)) \<and>
          distinct (map (key_of df') (rows df')) \<and>
          key_of df' ` set (rows df') = key_of df ` set (rows df) \<and>
          (\<forall>out \<in> set (rows df').
             (exact_sum (group_values df (key_of df' out) ''cases'') \<longrightarrow>
                cell out (col_index ''cases'' (columns df'))
                  = column_total (group_values df (key_of df' out) ''cases'')) \<and>
             (exact_sum (group_values df (key_of df' out) ''deaths'') \<longrightarrow>
                cell out (col_index ''deaths'' (columns df'))
                  = column_total (group_values df (key_of df' out) ''deaths'')) \<and>
             (exact_sum (group_values df (key_of df' out) ''recovered'') \<longrightarrow>
                cell out (col_index ''recovered'' (columns df'))
                  = column_total (group_values df (key_of df' out) ''recovered'')))"
    by blast
qed

lemma ex_extra_ok: "well_formed ex_extra" "no_missing ex_extra"
  by code_simp+

theorem aggregate_groups_witness:
  "well_formed ex_extra \<and> no_missing ex_extra \<and>
   set required_columns \<subseteq> set (columns ex_extra) \<and> \<not> mixed_groups ex_extra \<and>
   aggregate ex_extra = Inr ex_extra_agg \<and>
   length (rows ex_extra_agg) = 2 \<and>
   group_values ex_extra (Str ''Usa'', Str ''2020-01-02'') ''cases'' = [Num 5, Num 7] \<and>
   exact_sum [Num 5, Num 7] \<and>
   column_total [Num 5, Num 7] = Num 12 \<and>
   well_formed ex_mixed \<and> no_missing ex_mixed \<and> mixed_groups ex_mixed \<and>
   aggregate ex_mixed = Inl TypeError"
proof -
  have m: "\<not> mixed_groups ex_extra" by code_simp
  have g: "group_values ex_extra (Str ''Usa'', Str ''2020-01-02'') ''cases'' = [Num 5, Num 7]"
    by code_simp
  have x: "exact_sum [Num 5, Num 7]" by (simp add: exact_sum_def)
  have t: "column_total [Num 5, Num 7] = Num 12" by code_simp
  have l: "length (rows ex_extra_agg) = 2" by (simp add: ex_extra_agg_def)
  have w2: "well_formed ex_mixed" "no_missing ex_mixed" by code_simp+
  have m2: "mixed_groups ex_mixed" by code_simp
  have r2: "aggregate ex_mixed = Inl TypeError"
    using aggregate_groups [OF w2] m2 by blast
  show ?thesis
    using aggregate_groups [OF ex_extra_ok] ex_extra_ok ex_extra_required ex_extra_aggregate
      m g x t l w2 m2 r2
    by simp
qed

text \<open>
  Where claim C1 as stated fails: a dataset as Stage 3 leaves it, with all five columns,
  whose group (Usa, 2020-01-02) holds a number and a string in the cases column. The
  addition of the two raises TypeError, and Stage 4 returns no dataset.
\<close>

theorem aggregate_groups_counterexample:
  "well_formed ex_mixed \<and> no_missing ex_mixed \<and> filter_rows ex_mixed = ex_mixed \<and>
   set required_columns \<subseteq> set (columns ex_mixed) \<and>
   aggregate ex_mixed = Inl TypeError"
proof -
  have "well_formed ex_mixed" by code_simp
  moreover have "no_missing ex_mixed" by code_simp
  moreover have "filter_rows ex_mixed = ex_mixed"
    by (simp add: filter_rows_def drop_duplicates_def dropna_def ex_mixed_def)
  moreover have "set required_columns \<subseteq> set (columns ex_mixed)"
    by (simp add: required_columns_def ex_mixed_def)
  moreover have "aggregate ex_mixed = Inl TypeError" by code_simp
  ultimately show ?thesis by blast
qed

subsection \<open>The pipeline as a whole\<close>








end
